theory Spec2Isabelle
  imports Complex_Main "HOL-Library.Log_Nat"
begin

section \<open>Gestione Assenze: the React front end and the hours ledger\<close>

text \<open>
  The repository is the React front end of an absence-management tool.  The pages
  are embedded as pure functions of their state: what a component renders becomes
  the list of controls it offers, an event handler becomes a function from the
  page state to the requests it sends and the state it leaves.  JavaScript strings
  are \<open>string\<close>; the numbers the pages receive are decoded from JSON, hence
  finite, and are modelled by exact rationals (IEEE rounding is left out).
\<close>

subsection \<open>Dashboard.jsx: the filtered absence list\<close>

text \<open>The fields of an absence object that the pages read.\<close>

record absence =
  absence_id :: string
  absence_type :: string
  status :: string
  hours :: "rat option"

text \<open>The four filter states of the Dashboard component.\<close>

record filters =
  filterFerie :: bool
  filterPermesso :: bool
  filterMalattia :: bool
  filterStatus :: string

text \<open>The arguments of the four \<open>useState\<close> calls.\<close>

definition initial_filters :: filters where
  "initial_filters =
     \<lparr>filterFerie = True, filterPermesso = True, filterMalattia = True,
      filterStatus = ''approved''\<rparr>"

text \<open>The callback handed to \<open>absences.filter\<close>, one early return per line.\<close>

definition keeps :: "filters \<Rightarrow> absence \<Rightarrow> bool" where
  "keeps f a =
     (if filterStatus f \<noteq> ''all'' \<and> status a \<noteq> filterStatus f then False
      else if absence_type a = ''ferie'' \<and> \<not> filterFerie f then False
      else if absence_type a = ''permesso'' \<and> \<not> filterPermesso f then False
      else if absence_type a = ''malattia'' \<and> \<not> filterMalattia f then False
      else True)"

definition filteredAbsences :: "filters \<Rightarrow> absence list \<Rightarrow> absence list" where
  "filteredAbsences f absences = filter (keeps f) absences"

subsection \<open>Dashboard.jsx and the Users page: the progress bars\<close>

text \<open>
  The result of JavaScript arithmetic on finite operands: a finite number, an
  infinity or NaN.  Division does not raise; by zero it yields an infinity or NaN.
\<close>

datatype jsnum = Num rat | PosInfinity | NegInfinity | NaN

text \<open>\<open>a / b\<close> on finite operands.\<close>

definition js_div :: "rat \<Rightarrow> rat \<Rightarrow> jsnum" where
  "js_div a b =
     (if b = 0 then (if a = 0 then NaN else if 0 < a then PosInfinity else NegInfinity)
      else Num (a / b))"

text \<open>\<open>x * c\<close> for a finite \<open>c\<close>.\<close>

fun js_mul :: "jsnum \<Rightarrow> rat \<Rightarrow> jsnum" where
  "js_mul (Num a) c = Num (a * c)"
| "js_mul PosInfinity c =
     (if c = 0 then NaN else if 0 < c then PosInfinity else NegInfinity)"
| "js_mul NegInfinity c =
     (if c = 0 then NaN else if 0 < c then NegInfinity else PosInfinity)"
| "js_mul NaN c = NaN"

text \<open>\<open>Math.min(c, x)\<close> for a finite \<open>c\<close>: NaN is contagious.\<close>

fun js_min :: "rat \<Rightarrow> jsnum \<Rightarrow> jsnum" where
  "js_min c (Num a) = Num (min c a)"
| "js_min c PosInfinity = Num c"
| "js_min c NegInfinity = NegInfinity"
| "js_min c NaN = NaN"

text \<open>\<open>x || 1\<close> on a finite number: zero is the only falsy one.\<close>

definition or_one :: "rat \<Rightarrow> rat" where
  "or_one x = (if x = 0 then 1 else x)"

text \<open>The balance object of \<open>getMyBalance\<close>, and of each entry of \<open>getAllBalances\<close>.\<close>

record balance =
  ferie_total :: rat
  ferie_used :: rat
  ferie_pending :: rat
  ferie_remaining :: rat
  permessi_total :: rat
  permessi_used :: rat
  permessi_pending :: rat
  permessi_remaining :: rat

text \<open>
  \<open>Math.min(100, (used / (total || 1)) * 100)\<close>, the expression behind every
  Progress bar (twice in Dashboard.jsx, twice per entry in the Users page).
\<close>

definition progress_value :: "rat \<Rightarrow> rat \<Rightarrow> jsnum" where
  "progress_value used_hours total_hours =
     js_min 100 (js_mul (js_div used_hours (or_one total_hours)) 100)"

text \<open>The balance state is \<open>null\<close> until the first fetch: then the value is 0.\<close>

definition feriePercentage :: "balance option \<Rightarrow> jsnum" where
  "feriePercentage b =
     (case b of
        Some bal \<Rightarrow> progress_value (ferie_used bal) (ferie_total bal)
      | None \<Rightarrow> Num 0)"

definition permessiPercentage :: "balance option \<Rightarrow> jsnum" where
  "permessiPercentage b =
     (case b of
        Some bal \<Rightarrow> progress_value (permessi_used bal) (permessi_total bal)
      | None \<Rightarrow> Num 0)"

subsection \<open>Dashboard.jsx: the new-request form\<close>

text \<open>
  The form state (\<open>absenceType\<close>, \<open>startDate\<close>, \<open>endDate\<close>, \<open>hours\<close>, \<open>notes\<close>).
  The \<open>hours\<close> state holds the value of an \<open>input type="number"\<close>, which is the
  empty string or a valid number: \<open>None\<close> is the empty string, \<open>Some h\<close> a text
  that \<open>parseFloat\<close> reads as \<open>h\<close>.  The two states that would clash with fields
  of an absence are written \<open>form_hours\<close> and \<open>form_notes\<close>.
\<close>

record request_form =
  absenceType :: string
  startDate :: string
  endDate :: string
  form_hours :: "rat option"
  form_notes :: string

text \<open>The object passed to \<open>createAbsence\<close>; \<open>None\<close> is \<open>null\<close>.\<close>

record new_absence =
  new_absence_type :: string
  new_start_date :: string
  new_end_date :: string
  new_hours :: "rat option"
  new_notes :: "string option"

datatype submit_outcome =
    Blocked
  | MissingHours
  | Sent new_absence

definition is_whole :: "rat \<Rightarrow> bool" where
  "is_whole x = (of_int \<lfloor>x\<rfloor> = x)"

text \<open>
  The hours input is declared \<open>required\<close>, \<open>min="0.5"\<close>, \<open>max="8"\<close>, \<open>step="0.5"\<close>
  (the \<open>Input\<close> component hands its attributes to the native input).  The
  browser's constraint validation accepts its value when it is present, within the
  bounds and a whole number of steps above the minimum.
\<close>

definition hours_input_valid :: "rat option \<Rightarrow> bool" where
  "hours_input_valid v =
     (case v of
        None \<Rightarrow> False
      | Some h \<Rightarrow> 1 / 2 \<le> h \<and> h \<le> 8 \<and> is_whole ((h - 1 / 2) / (1 / 2)))"

text \<open>
  The submit handler.  \<open>!hours\<close> holds for the empty string only (the text "0" is
  truthy); \<open>notes || null\<close> turns the empty string into \<open>null\<close>.
\<close>

definition handleCreateAbsence :: "request_form \<Rightarrow> submit_outcome" where
  "handleCreateAbsence fm =
     (if absenceType fm = ''permesso'' \<and> form_hours fm = None then MissingHours
      else Sent
        \<lparr>new_absence_type = absenceType fm,
         new_start_date = startDate fm,
         new_end_date = endDate fm,
         new_hours = (if absenceType fm = ''permesso'' then form_hours fm else None),
         new_notes = (if form_notes fm = [] then None else Some (form_notes fm))\<rparr>)"

text \<open>
  Pressing the submit button: the form has no \<open>noValidate\<close>, so the submit event
  reaches the handler only when every control is valid.  The hours input is rendered
  only for the type "permesso"; \<open>others_valid\<close> stands for the validity of the
  remaining controls (the two required dates).
\<close>

definition submit_form :: "bool \<Rightarrow> request_form \<Rightarrow> submit_outcome" where
  "submit_form others_valid fm =
     (if \<not> others_valid then Blocked
      else if absenceType fm = ''permesso'' \<and> \<not> hours_input_valid (form_hours fm)
        then Blocked
      else handleCreateAbsence fm)"

definition permesso_form :: "rat option \<Rightarrow> request_form" where
  "permesso_form h =
     \<lparr>absenceType = ''permesso'', startDate = ''2026-01-10'', endDate = ''2026-01-10'',
      form_hours = h, form_notes = []\<rparr>"

subsection \<open>api.js: the requests the pages send\<close>

datatype api_request =
    GetMyAbsences
  | DeleteAbsence string
  | ExportAbsences nat nat
  | GetUsers
  | GetAllBalances
  | RunMonthlyAccrual

subsection \<open>The Users page with the hours overview\<close>

text \<open>The fields of a user object that the page reads for its gates.\<close>

record user_record =
  user_id :: string
  role :: string

text \<open>What \<open>useAuth\<close> hands to a component; \<open>None\<close> is no signed-in user.\<close>

record auth =
  user :: "user_record option"
  loading :: bool

text \<open>\<open>fetchData\<close>, run when the page is mounted and after a successful change.\<close>

definition fetchData :: "api_request list" where
  "fetchData = [GetUsers, GetAllBalances]"

text \<open>\<open>currentUser?.role\<close> is \<open>undefined\<close> without a user, and no list includes it.\<close>

definition canManageHours :: "user_record option \<Rightarrow> bool" where
  "canManageHours currentUser =
     (case currentUser of
        None \<Rightarrow> False
      | Some u \<Rightarrow> role u \<in> set [''admin'', ''manager'', ''ufficio_personale''])"

definition canRunAccrual :: "user_record option \<Rightarrow> bool" where
  "canRunAccrual currentUser =
     (case currentUser of
        None \<Rightarrow> False
      | Some u \<Rightarrow> role u \<in> set [''admin'', ''ufficio_personale''])"

text \<open>The buttons of the page header; the accrual button carries its \<open>disabled\<close> flag.\<close>

datatype header_button = MonthlyAccrualBtn bool | AddUserBtn

definition header_buttons :: "user_record option \<Rightarrow> bool \<Rightarrow> header_button list" where
  "header_buttons currentUser saving =
     (if canRunAccrual currentUser then [MonthlyAccrualBtn saving] else []) @ [AddUserBtn]"

text \<open>
  \<open>handleMonthlyAccrual\<close>: nothing without the confirmation; otherwise the accrual
  request, followed by \<open>fetchData\<close> when the request succeeds.
\<close>

definition handleMonthlyAccrual :: "bool \<Rightarrow> bool \<Rightarrow> api_request list" where
  "handleMonthlyAccrual confirmed ok =
     (if \<not> confirmed then []
      else RunMonthlyAccrual # (if ok then fetchData else []))"

text \<open>A click reaches the handler only on a button that is rendered and enabled.\<close>

definition click_monthly_accrual ::
  "user_record option \<Rightarrow> bool \<Rightarrow> bool \<Rightarrow> bool \<Rightarrow> api_request list" where
  "click_monthly_accrual currentUser saving confirmed ok =
     (if MonthlyAccrualBtn False \<in> set (header_buttons currentUser saving)
      then handleMonthlyAccrual confirmed ok
      else [])"

subsection \<open>MyRequests.jsx: what the owner can do to a request\<close>

text \<open>The last cell of a row of the owner's table.\<close>

datatype row_control = DeleteButton string

definition row_controls :: "absence \<Rightarrow> row_control list" where
  "row_controls a =
     (if status a = ''pending'' then [DeleteButton (absence_id a)] else [])"

text \<open>
  \<open>handleDelete\<close>: the request sent and the \<open>absences\<close> state left; \<open>ok\<close> tells
  whether the server accepted the deletion.
\<close>

definition handleDelete ::
  "bool \<Rightarrow> string \<Rightarrow> absence list \<Rightarrow> api_request list \<times> absence list" where
  "handleDelete ok absenceId absences =
     ([DeleteAbsence absenceId],
      if ok then filter (\<lambda>a. absence_id a \<noteq> absenceId) absences else absences)"

text \<open>Confirming the deletion dialog of a row; there is none without the button.\<close>

definition click_delete ::
  "bool \<Rightarrow> absence \<Rightarrow> absence list \<Rightarrow> api_request list \<times> absence list" where
  "click_delete ok a absences =
     (if DeleteButton (absence_id a) \<in> set (row_controls a)
      then handleDelete ok (absence_id a) absences
      else ([], absences))"

text \<open>Fixtures: signed-in sessions, and requests of the owner.\<close>

definition session :: "string \<Rightarrow> auth" where
  "session r = \<lparr>user = Some \<lparr>user_id = ''user_1'', role = r\<rparr>, loading = False\<rparr>"

definition own_request :: "string \<Rightarrow> string \<Rightarrow> absence" where
  "own_request i st =
     \<lparr>absence_id = i, absence_type = ''ferie'', status = st, hours = None\<rparr>"

text \<open>Fixtures: a pending permit request, and the filters with the status set to "all".\<close>

definition pending_permesso :: absence where
  "pending_permesso =
     \<lparr>absence_id = ''abs_1'', absence_type = ''permesso'', status = ''pending'',
      hours = Some 4\<rparr>"

definition all_statuses :: filters where
  "all_statuses = initial_filters\<lparr>filterStatus := ''all''\<rparr>"

subsection \<open>The hours ledger behind the balance endpoints\<close>

text \<open>
  The pages above only call the server: \<open>getMyBalance\<close>, \<open>getAllBalances\<close>,
  \<open>addHoursToUser\<close>, \<open>runMonthlyAccrual\<close> and \<open>handleAbsenceAction\<close> are HTTP
  requests, and the server that answers them is not part of the front end.  The
  ledger below is therefore written from the specification (sections 3, 4.1, 6
  and 7).  The stored hour fields, "numeric" in the specification, are rationals;
  the amount of \<open>adjustHours\<close>, a "signed float", is added in binary64
  arithmetic.
\<close>

text \<open>Modelled from the spec: the absence category of a request (section 3).\<close>

datatype leave_category = Vacation | Permit | Sick

text \<open>Modelled from the spec: the status of a request (section 3).\<close>

datatype request_status = Pending | Approved | Rejected

text \<open>
  Modelled from the spec: the two hour-based categories the ledger keeps totals
  for, the domain of the category argument of \<open>adjustHours\<close> (section 4.1).
\<close>

datatype ledger_category = VacationHours | PermitHours

text \<open>Modelled from the spec: the error taxonomy of section 7.\<close>

datatype ledger_error = NotFound | Validation | Authorization

text \<open>
  Modelled from the spec: the User entity (section 3), with its identity and its
  four numeric fields; the ledger reads nothing else of a user.
\<close>

record User =
  uid :: nat
  total_vacation_hours :: rat
  total_permit_hours :: rat
  monthly_vacation_accrual :: rat
  monthly_permit_accrual :: rat

text \<open>
  Modelled from the spec: the AbsenceRequest entity (section 3); dates are day
  numbers, the hours quantity is optional.
\<close>

record AbsenceRequest =
  rid :: nat
  owner :: nat
  category :: leave_category
  start_date :: nat
  end_date :: nat
  explicit_hours :: "rat option"
  req_status :: request_status

text \<open>Modelled from the spec: the document store, all users and all requests.\<close>

record Ledger =
  users :: "User list"
  requests :: "AbsenceRequest list"

text \<open>
  Modelled from the spec: the computed view of one category,
  \<open>{total, used, pending, remaining}\<close> (section 4.1, \<open>computeBalance\<close>).
\<close>

record CategoryBalance =
  c_total :: rat
  c_used :: rat
  c_pending :: rat
  c_remaining :: rat

text \<open>Modelled from the spec: resolving a \<open>userId\<close> to an existing user.\<close>

definition find_user :: "Ledger \<Rightarrow> nat \<Rightarrow> User option" where
  "find_user s userId = find (\<lambda>u. uid u = userId) (users s)"

text \<open>
  Modelled from the spec: the "signed float" of \<open>adjustHours\<close>, read as IEEE 754
  binary64 with rounding to nearest, ties to even.  A finite double is a rational
  \<open>m * 2 ^ e\<close> with an integer \<open>m\<close> of at most 53 bits; \<open>ilog2 x\<close> is the
  binary exponent of a positive \<open>x\<close>, the greatest \<open>k\<close> with \<open>2 ^ k \<le> x\<close>.
\<close>

definition ilog2 :: "rat \<Rightarrow> int" where
  "ilog2 x =
     (case quotient_of x of
        (a, b) \<Rightarrow> let k = bitlen a - bitlen b in if 2 powi k \<le> x then k else k - 1)"

text \<open>
  Modelled from the spec: the exponent of the spacing of the doubles around \<open>x\<close>:
  52 below the binary exponent of \<open>x\<close>, and never below that of the subnormals.
\<close>

definition quantum_exp :: "rat \<Rightarrow> int" where
  "quantum_exp x = max (- 1074) (ilog2 \<bar>x\<bar> - 52)"

text \<open>Modelled from the spec: the nearest integer, a tie going to the even one.\<close>

definition round_half_even :: "rat \<Rightarrow> int" where
  "round_half_even y =
     (let f = \<lfloor>y\<rfloor>; d = y - of_int f
      in if d < 1 / 2 then f else if 1 / 2 < d then f + 1 else if even f then f else f + 1)"

text \<open>
  Modelled from the spec: the double nearest to \<open>x\<close>.  Overflow to an infinity
  (magnitudes from \<open>2 ^ 1024\<close> on) is not part of the model.
\<close>

definition round_double :: "rat \<Rightarrow> rat" where
  "round_double x =
     (if x = 0 then 0
      else of_int (round_half_even (x / 2 powi quantum_exp x)) * 2 powi quantum_exp x)"

text \<open>
  Modelled from the spec: the rationals that are finite doubles, those on the
  grid and below \<open>2 ^ 1024\<close> in magnitude.
\<close>

definition is_double :: "rat \<Rightarrow> bool" where
  "is_double x =
     (\<bar>x\<bar> < 2 ^ 1024 \<and> (x = 0 \<or> is_whole (x / 2 powi quantum_exp x)))"

text \<open>Modelled from the spec: the sum of two doubles, as a double.\<close>

definition float_add :: "rat \<Rightarrow> rat \<Rightarrow> rat" where
  "float_add a b = round_double (a + b)"

text \<open>
  Modelled from the spec: "adds \<open>deltaHours\<close> (can be negative) to the user's
  \<open>total_<category>_hours\<close>", on one user; \<open>deltaHours\<close> is a signed float.
\<close>

definition add_hours :: "ledger_category \<Rightarrow> rat \<Rightarrow> User \<Rightarrow> User" where
  "add_hours c deltaHours u =
     (case c of
        VacationHours \<Rightarrow>
          u\<lparr>total_vacation_hours := float_add (total_vacation_hours u) deltaHours\<rparr>
      | PermitHours \<Rightarrow>
          u\<lparr>total_permit_hours := float_add (total_permit_hours u) deltaHours\<rparr>)"

text \<open>
  Modelled from the spec: the server's \<open>adjustHours\<close> (section 4.1).  It fails
  when \<open>userId\<close> does not resolve to a user; no lower bound is enforced.
\<close>

definition adjustHours ::
  "Ledger \<Rightarrow> nat \<Rightarrow> ledger_category \<Rightarrow> rat \<Rightarrow> ledger_error + Ledger" where
  "adjustHours s userId c deltaHours =
     (case find_user s userId of
        None \<Rightarrow> Inl NotFound
      | Some _ \<Rightarrow>
          Inr (s\<lparr>users :=
            map (\<lambda>u. if uid u = userId then add_hours c deltaHours u else u) (users s)\<rparr>))"



text \<open>
  Modelled from the spec: the hours of a request.  The explicit amount when there
  is one; otherwise they are "derived from the day span", by a policy the spec
  leaves open and the model takes as the parameter \<open>day_span_hours\<close>.
\<close>

definition request_hours :: "(nat \<Rightarrow> nat \<Rightarrow> rat) \<Rightarrow> AbsenceRequest \<Rightarrow> rat" where
  "request_hours day_span_hours r =
     (case explicit_hours r of
        Some h \<Rightarrow> h
      | None \<Rightarrow> day_span_hours (start_date r) (end_date r))"

text \<open>Modelled from the spec: the request category a ledger category counts.\<close>

definition leave_of :: "ledger_category \<Rightarrow> leave_category" where
  "leave_of c = (case c of VacationHours \<Rightarrow> Vacation | PermitHours \<Rightarrow> Permit)"

text \<open>Modelled from the spec: the stored total of a ledger category.\<close>

definition total_of :: "ledger_category \<Rightarrow> User \<Rightarrow> rat" where
  "total_of c u =
     (case c of VacationHours \<Rightarrow> total_vacation_hours u | PermitHours \<Rightarrow> total_permit_hours u)"

text \<open>
  Modelled from the spec: "sum of hours across that user's requests in the
  category" with a given status.
\<close>

definition hours_with ::
  "(nat \<Rightarrow> nat \<Rightarrow> rat) \<Rightarrow> AbsenceRequest list \<Rightarrow> nat \<Rightarrow> leave_category \<Rightarrow> request_status \<Rightarrow> rat" where
  "hours_with day_span_hours rs userId c st =
     sum_list (map (request_hours day_span_hours)
       (filter (\<lambda>r. owner r = userId \<and> category r = c \<and> req_status r = st) rs))"

text \<open>
  Modelled from the spec: the server's \<open>computeBalance\<close> (section 4.1), for both
  ledger categories; it fails when \<open>userId\<close> does not resolve to a user.
\<close>

definition computeBalance ::
  "(nat \<Rightarrow> nat \<Rightarrow> rat) \<Rightarrow> Ledger \<Rightarrow> nat \<Rightarrow> ledger_error + (ledger_category \<Rightarrow> CategoryBalance)" where
  "computeBalance day_span_hours s userId =
     (case find_user s userId of
        None \<Rightarrow> Inl NotFound
      | Some u \<Rightarrow>
          Inr (\<lambda>c.
            let t = total_of c u;
                us = hours_with day_span_hours (requests s) userId (leave_of c) Approved;
                pe = hours_with day_span_hours (requests s) userId (leave_of c) Pending
            in \<lparr>c_total = t, c_used = us, c_pending = pe, c_remaining = t - us - pe\<rparr>))"

text \<open>
  Modelled from the spec: \<open>listAllBalances\<close>, the "batch variant of
  \<open>computeBalance\<close> for all users" (section 4.1): one entry per user, in the order
  of the store, with the user's id.
\<close>

definition listAllBalances ::
  "(nat \<Rightarrow> nat \<Rightarrow> rat) \<Rightarrow> Ledger \<Rightarrow> (nat \<times> (ledger_category \<Rightarrow> CategoryBalance)) list" where
  "listAllBalances day_span_hours s =
     concat (map (\<lambda>u. case computeBalance day_span_hours s (uid u) of
                         Inr b \<Rightarrow> [(uid u, b)]
                       | Inl _ \<Rightarrow> [])
       (users s))"

text \<open>Modelled from the spec: the role of a user, "one of" four (section 3).\<close>

datatype user_role = Admin | Manager | Employee | PersonnelOffice

text \<open>Modelled from the spec: the five operations of the table of section 6.\<close>

datatype ledger_operation =
    OpAddHours
  | OpRunMonthlyAccrual
  | OpGetMyBalance
  | OpGetUserBalance
  | OpGetAllBalances

text \<open>
  Modelled from the spec: the column "Caller role required" of that table; "any
  authenticated user" is every role.
\<close>

fun role_allowed :: "ledger_operation \<Rightarrow> user_role \<Rightarrow> bool" where
  "role_allowed OpAddHours r = (r = Admin \<or> r = Manager \<or> r = PersonnelOffice)"
| "role_allowed OpRunMonthlyAccrual r = (r = Admin \<or> r = PersonnelOffice)"
| "role_allowed OpGetMyBalance r = True"
| "role_allowed OpGetUserBalance r = (r = Admin \<or> r = Manager \<or> r = PersonnelOffice)"
| "role_allowed OpGetAllBalances r = (r = Admin \<or> r = Manager \<or> r = PersonnelOffice)"

text \<open>
  Modelled from the spec: the operation "Get all balances" as a caller meets it.
  A caller without a required role is refused with the authorization error of
  section 7; otherwise the answer is the balance list for all users.
\<close>

definition getAllBalances ::
  "user_role \<Rightarrow> (nat \<Rightarrow> nat \<Rightarrow> rat) \<Rightarrow> Ledger \<Rightarrow>
     ledger_error + (nat \<times> (ledger_category \<Rightarrow> CategoryBalance)) list" where
  "getAllBalances caller day_span_hours s =
     (if role_allowed OpGetAllBalances caller then Inr (listAllBalances day_span_hours s)
      else Inl Authorization)"

text \<open>Modelled from the spec: the status transition, on one request.\<close>

definition set_status :: "nat \<Rightarrow> request_status \<Rightarrow> AbsenceRequest \<Rightarrow> AbsenceRequest" where
  "set_status requestId st r = (if rid r = requestId then r\<lparr>req_status := st\<rparr> else r)"

text \<open>Modelled from the spec: the two decisions of an approver.\<close>

datatype approver_action = Approve | Reject

text \<open>Modelled from the spec: the status each decision leaves.\<close>

definition status_after :: "approver_action \<Rightarrow> request_status" where
  "status_after act = (case act of Approve \<Rightarrow> Approved | Reject \<Rightarrow> Rejected)"

text \<open>
  Modelled from the spec: the server side of \<open>handleAbsenceAction\<close>, the status
  transition performed by an approver (section 3); it fails on an unknown request.
\<close>

definition absenceAction :: "Ledger \<Rightarrow> nat \<Rightarrow> approver_action \<Rightarrow> ledger_error + Ledger" where
  "absenceAction s requestId act =
     (case find (\<lambda>r. rid r = requestId) (requests s) of
        None \<Rightarrow> Inl NotFound
      | Some _ \<Rightarrow>
          Inr (s\<lparr>requests := map (set_status requestId (status_after act)) (requests s)\<rparr>))"

text \<open>
  Fixtures: the scenario of section 8 of the specification (a user with 40 permit
  hours and one permit request of 4 hours), and a day-span policy of eight hours a
  day.
\<close>

definition eight_hour_days :: "nat \<Rightarrow> nat \<Rightarrow> rat" where
  "eight_hour_days first_day last_day = 8 * of_nat (last_day + 1 - first_day)"

definition user_U :: User where
  "user_U = \<lparr>uid = 1, total_vacation_hours = 160, total_permit_hours = 40,
     monthly_vacation_accrual = 14, monthly_permit_accrual = 3\<rparr>"

definition permit_request :: "request_status \<Rightarrow> AbsenceRequest" where
  "permit_request st = \<lparr>rid = 7, owner = 1, category = Permit, start_date = 10, end_date = 10,
     explicit_hours = Some 4, req_status = st\<rparr>"

definition ledger_U :: "request_status \<Rightarrow> Ledger" where
  "ledger_U st = \<lparr>users = [user_U], requests = [permit_request st]\<rparr>"

text \<open>
  Fixtures: the double nearest to 0.1 (what \<open>parseFloat("0.1")\<close> yields), and the
  store of one user with a given total of vacation hours.
\<close>

definition tenth :: rat where
  "tenth = 3602879701896397 / 36028797018963968"

definition ledger_with :: "rat \<Rightarrow> Ledger" where
  "ledger_with t = \<lparr>users = [user_U\<lparr>total_vacation_hours := t\<rparr>], requests = []\<rparr>"

section \<open>Properties\<close>

subsection \<open>Auxiliary facts about the ledger\<close>

lemma set_status_other:
  "\<forall>x \<in> set xs. rid x \<noteq> i \<Longrightarrow> map (set_status i st) xs = xs"
  by (induction xs) (simp_all add: set_status_def)

lemma find_Some_mem: "r \<in> set xs \<Longrightarrow> \<exists>y. find (\<lambda>x. rid x = rid r) xs = Some y"
  by (induction xs) auto

lemma hours_with_append:
  "hours_with d (xs @ ys) u c st = hours_with d xs u c st + hours_with d ys u c st"
  by (simp add: hours_with_def)

lemma hours_with_Cons:
  "hours_with d (x # xs) u c st =
     (if owner x = u \<and> category x = c \<and> req_status x = st then request_hours d x else 0)
     + hours_with d xs u c st"
  by (simp add: hours_with_def)

lemma request_hours_status [simp]:
  "request_hours d (r\<lparr>req_status := st\<rparr>) = request_hours d r"
  by (simp add: request_hours_def split: option.splits)

lemma hours_with_decided:
  assumes "r \<in> set xs" and "distinct (map rid xs)" and "req_status r = Pending"
    and "st' \<noteq> Pending"
  shows "hours_with d (map (set_status (rid r) st') xs) u c st =
     hours_with d xs u c st
     + (if owner r = u \<and> category r = c
        then (if st = st' then request_hours d r
              else if st = Pending then - request_hours d r else 0)
        else 0)"
proof -
  from assms(1) obtain ys zs where xs: "xs = ys @ r # zs"
    by (auto dest: split_list)
  with assms(2) have other: "\<forall>x \<in> set ys. rid x \<noteq> rid r" "\<forall>x \<in> set zs. rid x \<noteq> rid r"
    by (auto simp: image_iff)
  have "map (set_status (rid r) st') xs = ys @ r\<lparr>req_status := st'\<rparr> # zs"
    using other by (simp add: xs set_status_other) (simp add: set_status_def)
  then show ?thesis
    using assms(3,4) by (auto simp: xs hours_with_append hours_with_Cons)
qed

lemma find_user_map:
  "(\<And>x. uid (f x) = uid x) \<Longrightarrow>
   find (\<lambda>x. uid x = i) (map f xs) = map_option f (find (\<lambda>x. uid x = i) xs)"
  by (induction xs) simp_all

lemma add_hours_uid [simp]: "uid (add_hours c k x) = uid x"
  by (cases c) (simp_all add: add_hours_def)

lemma round_half_even_whole:
  assumes "is_whole y"
  shows "of_int (round_half_even y) = y"
proof -
  from assms have f: "of_int \<lfloor>y\<rfloor> = y"
    unfolding is_whole_def .
  have "y - of_int \<lfloor>y\<rfloor> = 0"
    unfolding f by simp
  then have r: "round_half_even y = \<lfloor>y\<rfloor>"
    unfolding round_half_even_def Let_def by simp
  show ?thesis
    unfolding r by (rule f)
qed

lemma round_double_fixes: "is_double x \<Longrightarrow> round_double x = x"
  by (auto simp: is_double_def round_double_def round_half_even_whole)

lemma ilog2_lower:
  assumes "0 < x"
  shows "2 powi ilog2 x \<le> x"
proof -
  obtain a b where q: "quotient_of x = (a, b)"
    by (cases "quotient_of x")
  then have b: "0 < b" and x: "x = of_int a / of_int b"
    by (simp_all add: quotient_of_denom_pos quotient_of_div)
  with assms have a: "0 < a"
    by (simp add: zero_less_divide_iff)
  define k where "k = bitlen a - bitlen b"
  show ?thesis
  proof (cases "2 powi k \<le> x")
    case True
    then show ?thesis
      by (simp add: ilog2_def q k_def Let_def)
  next
    case False
    have la: "(2::rat) ^ nat (bitlen a - 1) \<le> of_int a"
      using bitlen_bounds [OF a] by (metis of_int_le_iff of_int_numeral of_int_power)
    have lb: "of_int b < (2::rat) ^ nat (bitlen b)"
      using bitlen_bounds [OF b] by (metis of_int_less_iff of_int_numeral of_int_power)
    have pa: "0 \<le> bitlen a - 1" and pb: "0 \<le> bitlen b"
      using a b by (simp_all add: bitlen_alt_def)
    have "(2::rat) powi (k - 1) = 2 powi ((bitlen a - 1) - bitlen b)"
      by (simp add: k_def algebra_simps)
    also have "\<dots> = 2 powi (bitlen a - 1) / 2 powi bitlen b"
      by (rule power_int_diff) simp
    also have "\<dots> = 2 ^ nat (bitlen a - 1) / 2 ^ nat (bitlen b)"
      using pa pb by (simp add: power_int_def)
    also have "\<dots> \<le> of_int a / 2 ^ nat (bitlen b)"
      using la by (simp add: divide_right_mono)
    also have "\<dots> \<le> of_int a / of_int b"
      using lb a b by (simp add: frac_le)
    also have "\<dots> = x"
      by (simp add: x)
    finally show ?thesis
      using False by (simp add: ilog2_def q k_def Let_def)
  qed
qed

lemma half_steps_are_doubles:
  assumes "is_whole (2 * x)" and "\<bar>x\<bar> < 2 ^ 52"
  shows "is_double x"
proof (cases "x = 0")
  case True
  then show ?thesis by (simp add: is_double_def)
next
  case False
  have "(2::rat) ^ 52 < 2 ^ 1024"
    by (rule power_strict_increasing) simp_all
  with assms(2) have finite: "\<bar>x\<bar> < 2 ^ 1024"
    by (rule less_trans)
  from False have "2 powi ilog2 \<bar>x\<bar> \<le> \<bar>x\<bar>"
    by (intro ilog2_lower) simp
  with assms(2) have "(2::rat) powi ilog2 \<bar>x\<bar> < 2 powi 52"
    by simp
  then have "ilog2 \<bar>x\<bar> < 52"
    by (rule power_int_le_imp_less_exp [rotated]) simp_all
  then have e: "quantum_exp x \<le> - 1"
    by (simp add: quantum_exp_def)
  define n where "n = nat (- quantum_exp x - 1)"
  from e have "nat (- quantum_exp x) = Suc n"
    by (simp add: n_def)
  with e have "(2::rat) powi quantum_exp x = inverse (2 ^ Suc n)"
    by (simp add: power_int_def power_one_over inverse_eq_divide)
  then have "x / 2 powi quantum_exp x = (2 * x) * 2 ^ n"
    by (simp add: field_simps)
  moreover have "is_whole ((2 * x) * 2 ^ n)"
  proof -
    from assms(1) obtain m :: int where "2 * x = of_int m"
      by (metis is_whole_def)
    then have "(2 * x) * 2 ^ n = of_int (m * 2 ^ n)"
      by simp
    then show ?thesis
      unfolding is_whole_def by (metis floor_of_int)
  qed
  ultimately show ?thesis
    using finite by (simp add: is_double_def)
qed

lemma find_uid_mem: "u \<in> set xs \<Longrightarrow> \<exists>v. find (\<lambda>x. uid x = uid u) xs = Some v"
  by (induction xs) auto

lemma find_user_self:
  "u \<in> set (users s) \<Longrightarrow> \<exists>v. find_user s (uid u) = Some v"
  unfolding find_user_def by (rule find_uid_mem)

lemma find_user_uid: "find_user s i = Some u \<Longrightarrow> uid u = i"
  by (auto simp: find_user_def find_Some_iff)

subsection \<open>Balances, accrual, decisions, gates and filters\<close>

text \<open>
  C1. For a user that exists, \<open>computeBalance\<close> returns a balance whose permit
  entry has, as total, the user's total permit hours; as used, the sum of the hours
  of the user's approved permit requests; as pending, the sum of the hours of the
  user's pending permit requests; and remaining = total - used - pending.
\<close>

theorem computeBalance_permit:
  "find_user s userId = Some u \<longrightarrow>
     (\<exists>b. computeBalance d s userId = Inr b
        \<and> c_total (b PermitHours) = total_permit_hours u
        \<and> c_used (b PermitHours) =
            sum_list (map (request_hours d)
              (filter (\<lambda>r. owner r = userId \<and> category r = Permit \<and> req_status r = Approved)
                 (requests s)))
        \<and> c_pending (b PermitHours) =
            sum_list (map (request_hours d)
              (filter (\<lambda>r. owner r = userId \<and> category r = Permit \<and> req_status r = Pending)
                 (requests s)))
        \<and> c_remaining (b PermitHours) =
            c_total (b PermitHours) - c_used (b PermitHours) - c_pending (b PermitHours))"
  by (simp add: computeBalance_def hours_with_def leave_of_def total_of_def Let_def)

theorem computeBalance_permit_witness:
  "find_user (ledger_U Pending) 1 = Some user_U
   \<and> (\<exists>b. computeBalance eight_hour_days (ledger_U Pending) 1 = Inr b
        \<and> c_total (b PermitHours) = 40 \<and> c_used (b PermitHours) = 0
        \<and> c_pending (b PermitHours) = 4 \<and> c_remaining (b PermitHours) = 36)"
proof -
  have f: "find_user (ledger_U Pending) 1 = Some user_U"
    by (simp add: find_user_def ledger_U_def user_U_def)
  show ?thesis
    using f computeBalance_permit [of "ledger_U Pending" 1 user_U eight_hour_days]
    by (auto simp: ledger_U_def user_U_def permit_request_def request_hours_def)
qed



text \<open>
  C3, as the ledger has it.  Let the user exist, and let the total of vacation
  hours and that total plus 8 both be doubles.  Then \<open>adjustHours\<close> by +8 succeeds
  and leaves the user with the total raised by 8, and \<open>adjustHours\<close> by -8 then
  succeeds and leaves the user exactly as at the start.  Every multiple of half an
  hour up to \<open>2 ^ 50\<close> in magnitude is such a total.
\<close>

theorem adjustHours_round_trip:
  "(find_user s userId = Some u \<and> is_double (total_vacation_hours u)
      \<and> is_double (total_vacation_hours u + 8) \<longrightarrow>
     (\<exists>s1 s2. adjustHours s userId VacationHours 8 = Inr s1
        \<and> find_user s1 userId =
            Some (u\<lparr>total_vacation_hours := total_vacation_hours u + 8\<rparr>)
        \<and> adjustHours s1 userId VacationHours (- 8) = Inr s2
        \<and> find_user s2 userId = Some u))
   \<and> (is_whole (2 * t) \<and> \<bar>t\<bar> \<le> 2 ^ 50 \<longrightarrow> is_double t \<and> is_double (t + 8))"
proof (intro conjI impI)
  assume a: "find_user s userId = Some u \<and> is_double (total_vacation_hours u)
      \<and> is_double (total_vacation_hours u + 8)"
  then have u: "find_user s userId = Some u"
    by simp
  then have i: "uid u = userId"
    by (rule find_user_uid)
  define up where "up = u\<lparr>total_vacation_hours := total_vacation_hours u + 8\<rparr>"
  define s1 where
    "s1 = s\<lparr>users :=
       map (\<lambda>x. if uid x = userId then add_hours VacationHours 8 x else x) (users s)\<rparr>"
  define s2 where
    "s2 = s1\<lparr>users :=
       map (\<lambda>x. if uid x = userId then add_hours VacationHours (- 8) x else x) (users s1)\<rparr>"
  have plus: "add_hours VacationHours 8 u = up"
    using a by (simp add: add_hours_def float_add_def round_double_fixes up_def)
  have minus: "add_hours VacationHours (- 8) up = u"
    using a by (simp add: add_hours_def float_add_def round_double_fixes up_def)
  have first: "adjustHours s userId VacationHours 8 = Inr s1"
    using u by (simp add: adjustHours_def s1_def)
  have found1: "find_user s1 userId = Some up"
    using u i plus by (simp add: find_user_def s1_def find_user_map)
  then have second: "adjustHours s1 userId VacationHours (- 8) = Inr s2"
    by (simp add: adjustHours_def s2_def)
  have found2: "find_user s2 userId = Some u"
    using found1 i minus by (simp add: find_user_def s2_def find_user_map up_def)
  from first found1 second found2
  show "\<exists>s1 s2. adjustHours s userId VacationHours 8 = Inr s1
        \<and> find_user s1 userId =
            Some (u\<lparr>total_vacation_hours := total_vacation_hours u + 8\<rparr>)
        \<and> adjustHours s1 userId VacationHours (- 8) = Inr s2
        \<and> find_user s2 userId = Some u"
    unfolding up_def by blast
next
  assume h: "is_whole (2 * t) \<and> \<bar>t\<bar> \<le> 2 ^ 50"
  then show "is_double t"
    by (intro half_steps_are_doubles) simp_all
  from h obtain m :: int where "2 * t = of_int m"
    by (metis is_whole_def)
  then have "2 * (t + 8) = of_int (m + 16)"
    by simp
  then have "is_whole (2 * (t + 8))"
    unfolding is_whole_def by (metis floor_of_int)
  moreover have "\<bar>t + 8\<bar> \<le> \<bar>t\<bar> + 8"
    by (rule order_trans [OF abs_triangle_ineq]) simp
  with h have "\<bar>t + 8\<bar> < 2 ^ 52"
    by simp
  ultimately show "is_double (t + 8)"
    by (rule half_steps_are_doubles)
qed

theorem adjustHours_round_trip_witness:
  "find_user (ledger_U Pending) 1 = Some user_U
   \<and> is_whole (2 * total_vacation_hours user_U)
   \<and> \<bar>total_vacation_hours user_U\<bar> \<le> 2 ^ 50
   \<and> is_double (total_vacation_hours user_U)
   \<and> is_double (total_vacation_hours user_U + 8)
   \<and> (\<exists>s1 s2. adjustHours (ledger_U Pending) 1 VacationHours 8 = Inr s1
        \<and> find_user s1 1 = Some (user_U\<lparr>total_vacation_hours := 168\<rparr>)
        \<and> adjustHours s1 1 VacationHours (- 8) = Inr s2
        \<and> find_user s2 1 = Some user_U)"
proof -
  have f: "find_user (ledger_U Pending) 1 = Some user_U"
    by (simp add: find_user_def ledger_U_def user_U_def)
  have t: "total_vacation_hours user_U = 160"
    by (simp add: user_U_def)
  have w: "is_whole (2 * total_vacation_hours user_U)"
    "\<bar>total_vacation_hours user_U\<bar> \<le> 2 ^ 50"
    by (simp_all add: t is_whole_def)
  note law = adjustHours_round_trip
    [of "ledger_U Pending" 1 user_U "total_vacation_hours user_U"]
  from law w have d: "is_double (total_vacation_hours user_U)"
    "is_double (total_vacation_hours user_U + 8)"
    by blast+
  from law f d obtain s1 s2 where
    "adjustHours (ledger_U Pending) 1 VacationHours 8 = Inr s1"
    "find_user s1 1 =
       Some (user_U\<lparr>total_vacation_hours := total_vacation_hours user_U + 8\<rparr>)"
    "adjustHours s1 1 VacationHours (- 8) = Inr s2"
    "find_user s2 1 = Some user_U"
    by blast
  then have "\<exists>s1 s2. adjustHours (ledger_U Pending) 1 VacationHours 8 = Inr s1
        \<and> find_user s1 1 = Some (user_U\<lparr>total_vacation_hours := 168\<rparr>)
        \<and> adjustHours s1 1 VacationHours (- 8) = Inr s2
        \<and> find_user s2 1 = Some user_U"
    unfolding t by (intro exI [of _ s1] exI [of _ s2]) simp
  with f w d show ?thesis
    by (intro conjI)
qed

text \<open>
  C3, as the claim states it, fails at the total 0.1: it is a double, adding 8
  rounds, and after adding -8 the total is 0.09999999999999964.
\<close>

theorem adjustHours_round_trip_counterexample:
  "round_double (1 / 10) = tenth
   \<and> is_double tenth
   \<and> find_user (ledger_with tenth) 1 = Some (user_U\<lparr>total_vacation_hours := tenth\<rparr>)
   \<and> adjustHours (ledger_with tenth) 1 VacationHours 8 =
       Inr (ledger_with (4559894622712627 / 562949953421312))
   \<and> adjustHours (ledger_with (4559894622712627 / 562949953421312)) 1 VacationHours (- 8) =
       Inr (ledger_with (56294995342131 / 562949953421312))
   \<and> 56294995342131 / 562949953421312 \<noteq> tenth"
proof -
  have r: "round_double (1 / 10) = tenth" and d: "is_double tenth"
    unfolding tenth_def by code_simp+
  have up: "float_add tenth 8 = 4559894622712627 / 562949953421312"
    unfolding tenth_def by code_simp
  have down: "float_add (4559894622712627 / 562949953421312) (- 8) =
      56294995342131 / 562949953421312"
    by code_simp
  have ne: "(56294995342131 / 562949953421312 :: rat) \<noteq> tenth"
    by (simp add: tenth_def)
  have f: "find_user (ledger_with t) 1 = Some (user_U\<lparr>total_vacation_hours := t\<rparr>)" for t
    by (simp add: find_user_def ledger_with_def user_U_def)
  have step: "adjustHours (ledger_with t) 1 VacationHours k = Inr (ledger_with (float_add t k))"
    for t k
    unfolding adjustHours_def f by (simp add: ledger_with_def user_U_def add_hours_def)
  show ?thesis
    using r d f [of tenth] step [of tenth 8, unfolded up]
      step [of "4559894622712627 / 562949953421312" "- 8", unfolded down] ne
    by (intro conjI)
qed

text \<open>
  C4. Let \<open>r\<close> be a pending request of a store with distinct request ids, owned by
  a user that exists.  Approving \<open>r\<close> and rejecting \<open>r\<close> both succeed.  In the
  owner's next balance, for the category of \<open>r\<close>: after the approval, used has
  grown and pending has shrunk by the hours of \<open>r\<close>; after the rejection, used
  is as before and pending has shrunk by the hours of \<open>r\<close>.  The other category is
  untouched.
\<close>

theorem request_decision_moves_hours:
  "r \<in> set (requests s) \<and> req_status r = Pending \<and> distinct (map rid (requests s))
     \<and> find_user s (owner r) = Some u \<longrightarrow>
   (\<exists>sa sr b ba br.
      absenceAction s (rid r) Approve = Inr sa \<and> absenceAction s (rid r) Reject = Inr sr
      \<and> computeBalance d s (owner r) = Inr b
      \<and> computeBalance d sa (owner r) = Inr ba
      \<and> computeBalance d sr (owner r) = Inr br
      \<and> (\<forall>c. category r = leave_of c \<longrightarrow>
            c_used (ba c) = c_used (b c) + request_hours d r
            \<and> c_pending (ba c) = c_pending (b c) - request_hours d r
            \<and> c_used (br c) = c_used (b c)
            \<and> c_pending (br c) = c_pending (b c) - request_hours d r)
      \<and> (\<forall>c. category r \<noteq> leave_of c \<longrightarrow>
            c_used (ba c) = c_used (b c) \<and> c_pending (ba c) = c_pending (b c)
            \<and> c_used (br c) = c_used (b c) \<and> c_pending (br c) = c_pending (b c)))"
proof (intro impI)
  assume a: "r \<in> set (requests s) \<and> req_status r = Pending \<and> distinct (map rid (requests s))
     \<and> find_user s (owner r) = Some u"
  then obtain y where y: "find (\<lambda>x. rid x = rid r) (requests s) = Some y"
    using find_Some_mem by blast
  have moved: "hours_with d (map (set_status (rid r) st') (requests s)) (owner r) c st =
     hours_with d (requests s) (owner r) c st
     + (if owner r = owner r \<and> category r = c
        then (if st = st' then request_hours d r
              else if st = Pending then - request_hours d r else 0)
        else 0)" if "st' \<noteq> Pending" for st' c st
    using a that by (intro hours_with_decided) simp_all
  show "\<exists>sa sr b ba br.
      absenceAction s (rid r) Approve = Inr sa \<and> absenceAction s (rid r) Reject = Inr sr
      \<and> computeBalance d s (owner r) = Inr b
      \<and> computeBalance d sa (owner r) = Inr ba
      \<and> computeBalance d sr (owner r) = Inr br
      \<and> (\<forall>c. category r = leave_of c \<longrightarrow>
            c_used (ba c) = c_used (b c) + request_hours d r
            \<and> c_pending (ba c) = c_pending (b c) - request_hours d r
            \<and> c_used (br c) = c_used (b c)
            \<and> c_pending (br c) = c_pending (b c) - request_hours d r)
      \<and> (\<forall>c. category r \<noteq> leave_of c \<longrightarrow>
            c_used (ba c) = c_used (b c) \<and> c_pending (ba c) = c_pending (b c)
            \<and> c_used (br c) = c_used (b c) \<and> c_pending (br c) = c_pending (b c))"
    using a y
    by (simp add: absenceAction_def status_after_def computeBalance_def
        find_user_def Let_def moved)
qed

theorem request_decision_moves_hours_witness:
  "permit_request Pending \<in> set (requests (ledger_U Pending))
   \<and> req_status (permit_request Pending) = Pending
   \<and> distinct (map rid (requests (ledger_U Pending)))
   \<and> find_user (ledger_U Pending) (owner (permit_request Pending)) = Some user_U
   \<and> (\<exists>sa sr b ba br.
        absenceAction (ledger_U Pending) 7 Approve = Inr sa
        \<and> absenceAction (ledger_U Pending) 7 Reject = Inr sr
        \<and> computeBalance eight_hour_days (ledger_U Pending) 1 = Inr b
        \<and> computeBalance eight_hour_days sa 1 = Inr ba
        \<and> computeBalance eight_hour_days sr 1 = Inr br
        \<and> c_used (b PermitHours) = 0 \<and> c_pending (b PermitHours) = 4
        \<and> c_used (ba PermitHours) = 4 \<and> c_pending (ba PermitHours) = 0
        \<and> c_used (br PermitHours) = 0 \<and> c_pending (br PermitHours) = 0
        \<and> c_used (ba VacationHours) = c_used (b VacationHours)
        \<and> c_pending (br VacationHours) = c_pending (b VacationHours))"
proof -
  have pre: "permit_request Pending \<in> set (requests (ledger_U Pending))
     \<and> req_status (permit_request Pending) = Pending
     \<and> distinct (map rid (requests (ledger_U Pending)))
     \<and> find_user (ledger_U Pending) (owner (permit_request Pending)) = Some user_U"
    by (simp add: ledger_U_def permit_request_def find_user_def user_U_def)
  have ids: "rid (permit_request Pending) = 7" "owner (permit_request Pending) = 1"
    by (simp_all add: permit_request_def)
  have cat: "category (permit_request Pending) = leave_of PermitHours"
    "category (permit_request Pending) \<noteq> leave_of VacationHours"
    "request_hours eight_hour_days (permit_request Pending) = 4"
    by (simp_all add: permit_request_def leave_of_def request_hours_def)
  from request_decision_moves_hours
    [of "permit_request Pending" "ledger_U Pending" user_U eight_hour_days] pre
  obtain sa sr b ba br where m:
    "absenceAction (ledger_U Pending) 7 Approve = Inr sa"
    "absenceAction (ledger_U Pending) 7 Reject = Inr sr"
    "computeBalance eight_hour_days (ledger_U Pending) 1 = Inr b"
    "computeBalance eight_hour_days sa 1 = Inr ba"
    "computeBalance eight_hour_days sr 1 = Inr br"
    and same: "\<forall>c. category (permit_request Pending) = leave_of c \<longrightarrow>
      c_used (ba c) = c_used (b c) + request_hours eight_hour_days (permit_request Pending)
      \<and> c_pending (ba c) = c_pending (b c) - request_hours eight_hour_days (permit_request Pending)
      \<and> c_used (br c) = c_used (b c)
      \<and> c_pending (br c) = c_pending (b c) - request_hours eight_hour_days (permit_request Pending)"
    and other: "\<forall>c. category (permit_request Pending) \<noteq> leave_of c \<longrightarrow>
      c_used (ba c) = c_used (b c) \<and> c_pending (ba c) = c_pending (b c)
      \<and> c_used (br c) = c_used (b c) \<and> c_pending (br c) = c_pending (b c)"
    unfolding ids by blast
  from m(3) have b: "c_used (b PermitHours) = 0" "c_pending (b PermitHours) = 4"
    by (auto simp: computeBalance_def find_user_def ledger_U_def user_U_def permit_request_def
        hours_with_def leave_of_def request_hours_def Let_def)
  from same cat(1,3) b have permit:
    "c_used (ba PermitHours) = 4" "c_pending (ba PermitHours) = 0"
    "c_used (br PermitHours) = 0" "c_pending (br PermitHours) = 0"
    by simp_all
  from other cat(2) have vacation:
    "c_used (ba VacationHours) = c_used (b VacationHours)"
    "c_pending (br VacationHours) = c_pending (b VacationHours)"
    by simp_all
  from pre m b permit vacation show ?thesis
    by (intro conjI exI [of _ sa] exI [of _ sr] exI [of _ b] exI [of _ ba] exI [of _ br])
      simp_all
qed

text \<open>
  C5. Submitting the new-request form for a permit: without hours nothing is sent
  (the form is blocked, and the handler itself refuses); with hours 0 or above 8
  nothing is sent; whatever is sent carries hours between 0.5 and 8; and both ends
  of that range, 0.5 and 8, are sent when the other controls are valid.
\<close>

theorem permesso_hours_range:
  "absenceType fm = ''permesso'' \<longrightarrow>
     (form_hours fm = None \<longrightarrow>
        submit_form ov fm = Blocked \<and> handleCreateAbsence fm = MissingHours)
     \<and> (form_hours fm = Some 0 \<longrightarrow> submit_form ov fm = Blocked)
     \<and> (\<forall>h. form_hours fm = Some h \<and> 8 < h \<longrightarrow> submit_form ov fm = Blocked)
     \<and> (\<forall>p. submit_form ov fm = Sent p \<longrightarrow>
          (\<exists>h. form_hours fm = Some h \<and> new_hours p = Some h \<and> 1 / 2 \<le> h \<and> h \<le> 8))
     \<and> (ov \<and> (form_hours fm = Some (1 / 2) \<or> form_hours fm = Some 8) \<longrightarrow>
          (\<exists>p. submit_form ov fm = Sent p \<and> new_hours p = form_hours fm))"
proof (intro impI conjI allI)
  assume "absenceType fm = ''permesso''" "form_hours fm = None"
  then show "submit_form ov fm = Blocked" "handleCreateAbsence fm = MissingHours"
    by (simp_all add: submit_form_def hours_input_valid_def handleCreateAbsence_def)
next
  assume "absenceType fm = ''permesso''" "form_hours fm = Some 0"
  then show "submit_form ov fm = Blocked"
    by (simp add: submit_form_def hours_input_valid_def)
next
  fix h
  assume "absenceType fm = ''permesso''" "form_hours fm = Some h \<and> 8 < h"
  then show "submit_form ov fm = Blocked"
    by (simp add: submit_form_def hours_input_valid_def)
next
  fix p
  assume "absenceType fm = ''permesso''" "submit_form ov fm = Sent p"
  then show "\<exists>h. form_hours fm = Some h \<and> new_hours p = Some h \<and> 1 / 2 \<le> h \<and> h \<le> 8"
    by (auto simp: submit_form_def hours_input_valid_def handleCreateAbsence_def
        split: if_splits option.splits)
next
  assume "absenceType fm = ''permesso''"
    and "ov \<and> (form_hours fm = Some (1 / 2) \<or> form_hours fm = Some 8)"
  then show "\<exists>p. submit_form ov fm = Sent p \<and> new_hours p = form_hours fm"
    by (auto simp: submit_form_def hours_input_valid_def handleCreateAbsence_def is_whole_def)
qed

theorem permesso_hours_range_witness:
  "absenceType (permesso_form None) = ''permesso''
   \<and> submit_form True (permesso_form None) = Blocked
   \<and> handleCreateAbsence (permesso_form None) = MissingHours
   \<and> submit_form True (permesso_form (Some 0)) = Blocked
   \<and> submit_form True (permesso_form (Some 9)) = Blocked
   \<and> (\<exists>p. submit_form True (permesso_form (Some (1 / 2))) = Sent p
          \<and> new_hours p = Some (1 / 2))
   \<and> (\<exists>p. submit_form True (permesso_form (Some 8)) = Sent p \<and> new_hours p = Some 8)"
  using permesso_hours_range [of "permesso_form None" True]
    permesso_hours_range [of "permesso_form (Some 0)" True]
    permesso_hours_range [of "permesso_form (Some 9)" True]
    permesso_hours_range [of "permesso_form (Some (1 / 2))" True]
    permesso_hours_range [of "permesso_form (Some 8)" True]
  by (simp add: permesso_form_def)

text \<open>
  C6. The operation "Get all balances" answers a caller with the balance list,
  one entry for every user of the store, exactly when the caller's role is admin,
  manager or personnel office; the one other role, employee, is refused with the
  authorization error.
\<close>

theorem getAllBalances_roles:
  "((\<exists>bs. getAllBalances caller d s = Inr bs) \<longleftrightarrow>
      caller = Admin \<or> caller = Manager \<or> caller = PersonnelOffice)
   \<and> (caller = Admin \<or> caller = Manager \<or> caller = PersonnelOffice \<longrightarrow>
        getAllBalances caller d s = Inr (listAllBalances d s)
        \<and> map fst (listAllBalances d s) = map uid (users s))
   \<and> (caller \<noteq> Admin \<and> caller \<noteq> Manager \<and> caller \<noteq> PersonnelOffice \<longrightarrow>
        caller = Employee \<and> getAllBalances caller d s = Inl Authorization)"
proof -
  have one: "(case computeBalance d s (uid u) of Inr b \<Rightarrow> [(uid u, b)] | Inl _ \<Rightarrow> []) =
      [(uid u, projr (computeBalance d s (uid u)))]" if "u \<in> set (users s)" for u
    using find_user_self [OF that] by (auto simp: computeBalance_def)
  have "listAllBalances d s =
      map (\<lambda>u. (uid u, projr (computeBalance d s (uid u)))) (users s)"
    unfolding listAllBalances_def
    by (subst map_cong [OF refl one]) (simp_all add: concat_map_singleton)
  then have ids: "map fst (listAllBalances d s) = map uid (users s)"
    by (simp add: comp_def)
  show ?thesis
    using ids by (cases caller) (simp_all add: getAllBalances_def)
qed

theorem getAllBalances_roles_witness:
  "(\<exists>bs. getAllBalances Manager eight_hour_days (ledger_U Pending) = Inr bs)
   \<and> getAllBalances Manager eight_hour_days (ledger_U Pending) =
       Inr (listAllBalances eight_hour_days (ledger_U Pending))
   \<and> map fst (listAllBalances eight_hour_days (ledger_U Pending)) = [1]
   \<and> getAllBalances Employee eight_hour_days (ledger_U Pending) = Inl Authorization"
  using getAllBalances_roles [of Manager eight_hour_days "ledger_U Pending"]
    getAllBalances_roles [of Employee eight_hour_days "ledger_U Pending"]
  by (simp add: ledger_U_def user_U_def)

text \<open>
  C7. On the Users page the accrual request is sent only for a current user whose
  role is "admin" or "ufficio_personale"; for every other role, and without a user,
  the button is not rendered and a click sends nothing.  For those two roles the
  enabled button, once confirmed, does send it.
\<close>

theorem accrual_trigger_roles:
  "(RunMonthlyAccrual \<in> set (click_monthly_accrual cu saving confirmed ok) \<longrightarrow>
      (\<exists>u. cu = Some u \<and> (role u = ''admin'' \<or> role u = ''ufficio_personale'')))
   \<and> (canRunAccrual cu \<longleftrightarrow>
        (\<exists>u. cu = Some u \<and> (role u = ''admin'' \<or> role u = ''ufficio_personale'')))
   \<and> (\<not> canRunAccrual cu \<longrightarrow>
        header_buttons cu saving = [AddUserBtn]
        \<and> click_monthly_accrual cu saving confirmed ok = [])
   \<and> (canRunAccrual cu \<longrightarrow>
        RunMonthlyAccrual \<in> set (click_monthly_accrual cu False True ok))"
  by (auto simp: click_monthly_accrual_def header_buttons_def canRunAccrual_def
      handleMonthlyAccrual_def split: option.splits if_splits)

theorem accrual_trigger_roles_witness:
  "canRunAccrual (user (session ''ufficio_personale''))
   \<and> RunMonthlyAccrual \<in>
       set (click_monthly_accrual (user (session ''ufficio_personale'')) False True True)
   \<and> \<not> canRunAccrual (user (session ''manager''))
   \<and> header_buttons (user (session ''manager'')) False = [AddUserBtn]
   \<and> click_monthly_accrual (user (session ''manager'')) False True True = []"
  using accrual_trigger_roles [of "user (session ''ufficio_personale'')" False True True]
    accrual_trigger_roles [of "user (session ''manager'')" False True True]
  by (simp add: session_def)

text \<open>
  C8. On the owner's page a row offers one control at most, the deletion of that
  very request, and only while the request is pending: none for an approved or a
  rejected request.  Confirming it sends the deletion of that request and nothing
  else; afterwards every listed request is one that was listed before, unchanged,
  and every request with another id is still listed.
\<close>

theorem owner_only_deletes_pending:
  "(status a = ''pending'' \<longrightarrow> row_controls a = [DeleteButton (absence_id a)])
   \<and> (status a \<noteq> ''pending'' \<longrightarrow> row_controls a = [])
   \<and> (status a = ''approved'' \<or> status a = ''rejected'' \<longrightarrow>
        row_controls a = [] \<and> click_delete ok a absences = ([], absences))
   \<and> (status a = ''pending'' \<longrightarrow>
        fst (click_delete ok a absences) = [DeleteAbsence (absence_id a)])
   \<and> (\<forall>r. r \<in> set (fst (click_delete ok a absences)) \<longrightarrow>
        r = DeleteAbsence (absence_id a) \<and> status a = ''pending'')
   \<and> set (snd (click_delete ok a absences)) \<subseteq> set absences
   \<and> (\<forall>x. x \<in> set absences \<and> absence_id x \<noteq> absence_id a \<longrightarrow>
        x \<in> set (snd (click_delete ok a absences)))"
  by (auto simp: row_controls_def click_delete_def handleDelete_def)

theorem owner_only_deletes_pending_witness:
  "status (own_request ''abs_1'' ''pending'') = ''pending''
   \<and> row_controls (own_request ''abs_1'' ''pending'') = [DeleteButton ''abs_1'']
   \<and> status (own_request ''abs_2'' ''approved'') = ''approved''
   \<and> row_controls (own_request ''abs_2'' ''approved'') = []
   \<and> click_delete True (own_request ''abs_2'' ''approved'')
        [own_request ''abs_1'' ''pending'', own_request ''abs_2'' ''approved'']
      = ([], [own_request ''abs_1'' ''pending'', own_request ''abs_2'' ''approved''])
   \<and> fst (click_delete True (own_request ''abs_1'' ''pending'')
         [own_request ''abs_1'' ''pending'', own_request ''abs_2'' ''approved''])
      = [DeleteAbsence ''abs_1'']
   \<and> own_request ''abs_2'' ''approved'' \<in>
       set (snd (click_delete True (own_request ''abs_1'' ''pending'')
         [own_request ''abs_1'' ''pending'', own_request ''abs_2'' ''approved'']))"
proof -
  let ?p = "own_request ''abs_1'' ''pending''"
  let ?q = "own_request ''abs_2'' ''approved''"
  note of_p = owner_only_deletes_pending [of ?p True "[?p, ?q]"]
  note of_q = owner_only_deletes_pending [of ?q True "[?p, ?q]"]
  have st: "status ?p = ''pending''" "status ?q = ''approved''"
    and ids: "absence_id ?p = ''abs_1''" "absence_id ?q \<noteq> absence_id ?p"
    by (simp_all add: own_request_def)
  have "row_controls ?p = [DeleteButton (absence_id ?p)]"
    and "fst (click_delete True ?p [?p, ?q]) = [DeleteAbsence (absence_id ?p)]"
    using of_p st(1) by blast+
  then have p: "row_controls ?p = [DeleteButton ''abs_1'']"
    "fst (click_delete True ?p [?p, ?q]) = [DeleteAbsence ''abs_1'']"
    unfolding ids(1) by this+
  have q: "row_controls ?q = []" "click_delete True ?q [?p, ?q] = ([], [?p, ?q])"
    using of_q st(2) by blast+
  have "?q \<in> set [?p, ?q]"
    by simp
  with of_p ids(2) have kept: "?q \<in> set (snd (click_delete True ?p [?p, ?q]))"
    by blast
  from st p q kept show ?thesis
    by (intro conjI)
qed

text \<open>
  C9. The progress-bar value never divides by zero: the denominator \<open>total || 1\<close>
  is never 0 (it is 1 when the total is 0), so the result is a finite number, never
  NaN or an infinity; it is \<open>min(100, used / total * 100)\<close> when the total is not 0,
  and it is at most 100, also for the two Dashboard percentages whatever the
  balance state is.
\<close>

theorem progress_value_bounded:
  "or_one total_hours \<noteq> 0
   \<and> (total_hours = 0 \<longrightarrow> or_one total_hours = 1)
   \<and> progress_value used_hours total_hours =
       Num (min 100 (used_hours / or_one total_hours * 100))
   \<and> (total_hours \<noteq> 0 \<longrightarrow>
        progress_value used_hours total_hours =
          Num (min 100 (used_hours / total_hours * 100)))
   \<and> (\<exists>v. progress_value used_hours total_hours = Num v \<and> v \<le> 100)
   \<and> (\<exists>v. feriePercentage b = Num v \<and> v \<le> 100)
   \<and> (\<exists>v. permessiPercentage b = Num v \<and> v \<le> 100)"
proof -
  have nz: "or_one t \<noteq> 0" for t
    by (simp add: or_one_def)
  have pv: "progress_value u t = Num (min 100 (u / or_one t * 100))" for u t
    using nz [of t] by (simp add: progress_value_def js_div_def)
  have le: "\<exists>v. progress_value u t = Num v \<and> v \<le> 100" for u t
    by (simp add: pv)
  have "\<exists>v. feriePercentage b = Num v \<and> v \<le> 100"
    by (cases b) (simp_all add: feriePercentage_def le)
  moreover have "\<exists>v. permessiPercentage b = Num v \<and> v \<le> 100"
    by (cases b) (simp_all add: permessiPercentage_def le)
  moreover have "total_hours \<noteq> 0 \<longrightarrow>
      progress_value used_hours total_hours = Num (min 100 (used_hours / total_hours * 100))"
    by (simp add: pv or_one_def)
  moreover have "total_hours = 0 \<longrightarrow> or_one total_hours = 1"
    by (simp add: or_one_def)
  ultimately show ?thesis
    using nz [of total_hours] pv [of used_hours total_hours] le [of used_hours total_hours]
    by blast
qed

theorem progress_value_bounded_witness:
  "or_one 0 = 1
   \<and> progress_value 4 0 = Num 100
   \<and> progress_value 4 40 = Num 10
   \<and> feriePercentage None = Num 0"
  using progress_value_bounded [of 0 4 None] progress_value_bounded [of 40 4 None]
  by (simp add: feriePercentage_def or_one_def)

text \<open>
  C10. An absence of one of the three types is in the Dashboard's filtered list
  exactly when it is in the fetched list, the status filter is "all" or equals its
  status, and the checkbox of its type is ticked.  With the initial filters
  (status "approved", every checkbox ticked) exactly the approved absences are
  listed, so pending and rejected ones are hidden.
\<close>

theorem filteredAbsences_membership:
  "(absence_type a \<in> {''ferie'', ''permesso'', ''malattia''} \<longrightarrow>
      (a \<in> set (filteredAbsences f absences) \<longleftrightarrow>
         a \<in> set absences
         \<and> (filterStatus f = ''all'' \<or> filterStatus f = status a)
         \<and> (absence_type a = ''ferie'' \<and> filterFerie f
            \<or> absence_type a = ''permesso'' \<and> filterPermesso f
            \<or> absence_type a = ''malattia'' \<and> filterMalattia f)))
   \<and> filterStatus initial_filters = ''approved''
   \<and> filteredAbsences initial_filters absences =
       filter (\<lambda>x. status x = ''approved'') absences
   \<and> (status a \<in> {''pending'', ''rejected''} \<longrightarrow>
        a \<notin> set (filteredAbsences initial_filters absences))"
proof -
  have default: "keeps initial_filters = (\<lambda>x. status x = ''approved'')"
    by (rule ext) (auto simp: keeps_def initial_filters_def)
  have "absence_type a \<in> {''ferie'', ''permesso'', ''malattia''} \<Longrightarrow>
      keeps f a \<longleftrightarrow>
        (filterStatus f = ''all'' \<or> filterStatus f = status a)
         \<and> (absence_type a = ''ferie'' \<and> filterFerie f
            \<or> absence_type a = ''permesso'' \<and> filterPermesso f
            \<or> absence_type a = ''malattia'' \<and> filterMalattia f)"
    by (auto simp: keeps_def)
  moreover have "filteredAbsences initial_filters absences =
       filter (\<lambda>x. status x = ''approved'') absences"
    by (simp add: filteredAbsences_def default)
  moreover have "filterStatus initial_filters = ''approved''"
    by (simp add: initial_filters_def)
  ultimately show ?thesis
    by (auto simp: filteredAbsences_def)
qed

theorem filteredAbsences_membership_witness:
  "absence_type pending_permesso \<in> {''ferie'', ''permesso'', ''malattia''}
   \<and> pending_permesso \<in> set (filteredAbsences all_statuses [pending_permesso])
   \<and> status pending_permesso \<in> {''pending'', ''rejected''}
   \<and> pending_permesso \<notin> set (filteredAbsences initial_filters [pending_permesso])"
  using filteredAbsences_membership [of pending_permesso all_statuses "[pending_permesso]"]
  by (simp add: pending_permesso_def all_statuses_def initial_filters_def)

end
